theory Spec2Isabelle
  imports Main "HOL-Library.Word" "HOL-Library.Sublist"
begin

section \<open>Python strings and bytes\<close>

text \<open>
  A Python \<^verbatim>\<open>str\<close> is a sequence of Unicode code points: indexing, slicing,
  \<^verbatim>\<open>strip\<close> and \<^verbatim>\<open>splitlines\<close> all count code points, not bytes.  A string is
  therefore a list of code points (natural numbers), and \<^verbatim>\<open>bytes\<close> is a list of
  8-bit words.  String literals of the source that are pure ASCII are written with
  \<open>ascii\<close>.
\<close>

type_synonym pystr = "nat list"
type_synonym byte = "8 word"

definition ascii :: "string \<Rightarrow> pystr" where
  "ascii s = map of_char s"

text \<open>
  \<^verbatim>\<open>str.isspace\<close> for one code point, the test \<^verbatim>\<open>str.strip()\<close> uses
  (CPython's \<^verbatim>\<open>_PyUnicode_IsWhitespace\<close>), and the line boundaries of
  \<^verbatim>\<open>str.splitlines()\<close> (\<^verbatim>\<open>_PyUnicode_IsLinebreak\<close>).
\<close>

definition is_space :: "nat \<Rightarrow> bool" where
  "is_space c \<longleftrightarrow>
     (0x09 \<le> c \<and> c \<le> 0x0D) \<or> (0x1C \<le> c \<and> c \<le> 0x20) \<or> c = 0x85 \<or> c = 0xA0 \<or>
     c = 0x1680 \<or> (0x2000 \<le> c \<and> c \<le> 0x200A) \<or> c = 0x2028 \<or> c = 0x2029 \<or>
     c = 0x202F \<or> c = 0x205F \<or> c = 0x3000"

definition is_linebreak :: "nat \<Rightarrow> bool" where
  "is_linebreak c \<longleftrightarrow>
     (0x0A \<le> c \<and> c \<le> 0x0D) \<or> (0x1C \<le> c \<and> c \<le> 0x1E) \<or> c = 0x85 \<or>
     c = 0x2028 \<or> c = 0x2029"

text \<open>\<^verbatim>\<open>s.strip()\<close>: whitespace is removed from both ends.\<close>

definition strip :: "pystr \<Rightarrow> pystr" where
  "strip s = rev (dropWhile is_space (rev (dropWhile is_space s)))"

text \<open>
  \<^verbatim>\<open>s.splitlines()\<close>.  The scan keeps the characters of the line being read in
  \<open>cur\<close>; a line boundary closes the line (\<^verbatim>\<open>\r\n\<close> counts as one boundary), and
  a last line without a boundary is closed by the end of the string.  The empty string
  has no lines, and a string ending in a boundary has no empty last line.
\<close>

fun splitlines_from :: "pystr \<Rightarrow> pystr \<Rightarrow> pystr list" where
  "splitlines_from cur [] = (if cur = [] then [] else [cur])"
| "splitlines_from cur (c # s) =
     (if is_linebreak c then
        (if c = 0x0D then
           (case s of
              [] \<Rightarrow> [cur]
            | d # s' \<Rightarrow> if d = 0x0A then cur # splitlines_from [] s'
                       else cur # splitlines_from [] s)
         else cur # splitlines_from [] s)
      else splitlines_from (cur @ [c]) s)"

definition splitlines :: "pystr \<Rightarrow> pystr list" where
  "splitlines s = splitlines_from [] s"

text \<open>\<^verbatim>\<open>s.endswith(suffix)\<close>.\<close>

definition endswith :: "pystr \<Rightarrow> pystr \<Rightarrow> bool" where
  "endswith s suf \<longleftrightarrow>
     length suf \<le> length s \<and> drop (length s - length suf) s = suf"

section \<open>The response model\<close>

text \<open>The pydantic model \<^verbatim>\<open>SummaryOut\<close>; \<^verbatim>\<open>notes\<close> is optional.\<close>

record SummaryOut =
  purpose :: pystr
  insights :: "pystr list"
  risks :: "pystr list"
  next_steps :: "pystr list"
  "notes" :: "pystr list option"
  model_used :: pystr

section \<open>The heuristic summary\<close>

text \<open>
  \<^verbatim>\<open>heuristic_summarize\<close>: the non-empty stripped lines, the first three and the
  last three of them (all of them when there are fewer than three), cut to five
  entries, with a placeholder when nothing is left.  The \<^verbatim>\<open>purpose\<close> literal of the
  source holds the three code points U+00E2, U+20AC, U+2122 after \<^verbatim>\<open>Boom\<close>.
\<close>

definition heuristic_summarize :: "pystr \<Rightarrow> SummaryOut" where
  "heuristic_summarize text =
     (let lines = map strip (filter (\<lambda>ln. strip ln \<noteq> []) (splitlines text));
          head = take 3 lines;
          tail = (if length lines \<ge> 3 then drop (length lines - 3) lines else lines);
          cut = take 5 (head @ tail);
          insights = (if cut = [] then [ascii ''No salient lines detected.''] else cut)
      in \<lparr> purpose = ascii ''Summarize an uploaded document or pasted text into Boom''
                       @ [0xE2, 0x20AC, 0x2122] @ ascii ''s standard sections.'',
           insights = insights,
           risks = [ascii ''Not verified. Heuristic mode.''],
           next_steps = [ascii ''Provide clearer objectives.'',
                         ascii ''Flag key metrics to extract.'',
                         ascii ''Request LLM mode if available.''],
           notes = Some [ascii ''LLM disabled or key missing.''],
           model_used = ascii ''heuristic'' \<rparr>)"

section \<open>Decoding the uploaded bytes\<close>

text \<open>
  \<^verbatim>\<open>bytes.decode("utf-8", errors=...)\<close>, as CPython's decoder scans: one lead byte
  decides the length of the sequence, the second byte of a three- or four-byte sequence
  has a narrower range after \<^verbatim>\<open>E0\<close>, \<^verbatim>\<open>ED\<close>, \<^verbatim>\<open>F0\<close> and \<^verbatim>\<open>F4\<close> (no overlong forms,
  no surrogates, nothing above U+10FFFF).  An error covers the lead byte and the
  continuation bytes accepted so far; the error handler's replacement \<open>repl\<close> is
  emitted for it and the scan resumes after the error.  \<^verbatim>\<open>errors="ignore"\<close> has
  the empty replacement, \<^verbatim>\<open>errors="replace"\<close> has U+FFFD.
\<close>

definition is_cont :: "nat \<Rightarrow> bool" where
  "is_cont b \<longleftrightarrow> 0x80 \<le> b \<and> b < 0xC0"

text \<open>
  One step of the scan at lead byte \<open>ch\<close> followed by \<open>s\<close>: the code point decoded
  (\<open>None\<close> for an error) and the number of bytes of \<open>s\<close> consumed with the lead byte.
\<close>

definition utf8_two :: "nat \<Rightarrow> nat list \<Rightarrow> nat option \<times> nat" where
  "utf8_two ch s =
     (case s of
        [] \<Rightarrow> (None, 0)
      | ch2 # s2 \<Rightarrow>
          if \<not> is_cont ch2 then (None, 0)
          else (Some ((ch - 0xC0) * 0x40 + (ch2 - 0x80)), 1))"

definition utf8_three :: "nat \<Rightarrow> nat list \<Rightarrow> nat option \<times> nat" where
  "utf8_three ch s =
     (case s of
        [] \<Rightarrow> (None, 0)
      | ch2 # s2 \<Rightarrow>
          if \<not> is_cont ch2 \<or> (ch = 0xE0 \<and> ch2 < 0xA0) \<or> (ch = 0xED \<and> 0xA0 \<le> ch2)
          then (None, 0)
          else (case s2 of
                  [] \<Rightarrow> (None, 1)
                | ch3 # s3 \<Rightarrow>
                    if \<not> is_cont ch3 then (None, 1)
                    else (Some ((ch - 0xE0) * 0x1000 + (ch2 - 0x80) * 0x40 + (ch3 - 0x80)),
                          2)))"

definition utf8_four :: "nat \<Rightarrow> nat list \<Rightarrow> nat option \<times> nat" where
  "utf8_four ch s =
     (case s of
        [] \<Rightarrow> (None, 0)
      | ch2 # s2 \<Rightarrow>
          if \<not> is_cont ch2 \<or> (ch = 0xF0 \<and> ch2 < 0x90) \<or> (ch = 0xF4 \<and> 0x90 \<le> ch2)
          then (None, 0)
          else (case s2 of
                  [] \<Rightarrow> (None, 1)
                | ch3 # s3 \<Rightarrow>
                    if \<not> is_cont ch3 then (None, 1)
                    else (case s3 of
                            [] \<Rightarrow> (None, 2)
                          | ch4 # s4 \<Rightarrow>
                              if \<not> is_cont ch4 then (None, 2)
                              else (Some ((ch - 0xF0) * 0x40000 + (ch2 - 0x80) * 0x1000
                                            + (ch3 - 0x80) * 0x40 + (ch4 - 0x80)),
                                    3))))"

definition utf8_step :: "nat \<Rightarrow> nat list \<Rightarrow> nat option \<times> nat" where
  "utf8_step ch s =
     (if ch < 0x80 then (Some ch, 0)
      else if ch < 0xC2 then (None, 0)
      else if ch < 0xE0 then utf8_two ch s
      else if ch < 0xF0 then utf8_three ch s
      else if ch < 0xF5 then utf8_four ch s
      else (None, 0))"

fun utf8_decode :: "pystr \<Rightarrow> nat list \<Rightarrow> pystr" where
  "utf8_decode repl [] = []"
| "utf8_decode repl (ch # s) =
     (case utf8_step ch s of
        (Some c, k) \<Rightarrow> c # utf8_decode repl (drop k s)
      | (None, k) \<Rightarrow> repl @ utf8_decode repl (drop k s))"

text \<open>A Unicode scalar value: a code point up to U+10FFFF that is not a surrogate.\<close>

definition scalar :: "nat \<Rightarrow> bool" where
  "scalar c \<longleftrightarrow> c < 0xD800 \<or> (0xE000 \<le> c \<and> c < 0x110000)"

definition decode_utf8_ignore :: "byte list \<Rightarrow> pystr" where
  "decode_utf8_ignore bs = utf8_decode [] (map unat bs)"

text \<open>
  The decoding the specification describes ("replaced rather than raising"), which the
  source does not use: \<^verbatim>\<open>errors="replace"\<close>.
\<close>

definition decode_utf8_replace :: "byte list \<Rightarrow> pystr" where
  "decode_utf8_replace bs = utf8_decode [0xFFFD] (map unat bs)"

text \<open>\<^verbatim>\<open>str.encode("utf-8")\<close> for one code point and for a string.\<close>

definition utf8_encode_cp :: "nat \<Rightarrow> nat list" where
  "utf8_encode_cp c =
     (if c < 0x80 then [c]
      else if c < 0x800 then [0xC0 + c div 0x40, 0x80 + c mod 0x40]
      else if c < 0x10000 then
        [0xE0 + c div 0x1000, 0x80 + c div 0x40 mod 0x40, 0x80 + c mod 0x40]
      else [0xF0 + c div 0x40000, 0x80 + c div 0x1000 mod 0x40,
            0x80 + c div 0x40 mod 0x40, 0x80 + c mod 0x40])"

definition utf8_encode :: "pystr \<Rightarrow> nat list" where
  "utf8_encode cs = concat (map utf8_encode_cp cs)"

section \<open>The runtime the handler runs against\<close>

text \<open>
  Exceptions of class \<^verbatim>\<open>Exception\<close> that the libraries called inside the
  \<^verbatim>\<open>try\<close> block can raise.  The handler's \<^verbatim>\<open>except Exception\<close> catches
  exactly this class; task cancellation and interpreter exit are not in it and are not
  modelled.
\<close>

datatype exn =
    ImportError
  | TransportError
  | TimeoutException
  | HTTPStatusError int
  | JSONDecodeError
  | AttributeError
  | ValidationError
  | OtherException pystr

text \<open>
  The values \<^verbatim>\<open>json.loads\<close> and \<^verbatim>\<open>Response.json()\<close> return.  A float is
  \<open>Finite m e\<close> for \<open>m * 2 ^ e\<close>, an infinity with its sign, or not a number; a
  dictionary is the list of its items, with distinct keys.
\<close>

datatype pyfloat = Finite int int | Infinity bool | NaN

datatype json =
    JNone
  | JBool bool
  | JInt int
  | JFloat pyfloat
  | JStr pystr
  | JList "json list"
  | JDict "(pystr \<times> json) list"

text \<open>An \<^verbatim>\<open>httpx.Response\<close>: its status code and what \<^verbatim>\<open>r.json()\<close> does.\<close>

record response =
  status_code :: int
  response_json :: "exn + json"

text \<open>
  What this repository does not contain and the handler depends on: the process
  environment, the Unicode case mapping behind \<^verbatim>\<open>str.lower\<close>, whether
  \<^verbatim>\<open>httpx\<close> is installed, the outcome of the outbound POST (timeout in seconds,
  URL, JSON payload, headers), \<^verbatim>\<open>str()\<close> of a decoded JSON value,
  \<^verbatim>\<open>json.loads\<close> on a non-empty string, and pydantic's validation of a
  \<^verbatim>\<open>str\<close> field and of a \<^verbatim>\<open>List[str]\<close> field.  Every property below is proved
  for all of them.
\<close>

record runtime =
  environ :: "pystr \<Rightarrow> pystr option"
  str_lower :: "pystr \<Rightarrow> pystr"
  import_httpx :: "exn option"
  client_post :: "nat \<Rightarrow> pystr \<Rightarrow> json \<Rightarrow> (pystr \<times> pystr) list \<Rightarrow> exn + response"
  py_str :: "json \<Rightarrow> pystr"
  json_loads :: "pystr \<Rightarrow> exn + json"
  validate_str :: "json \<Rightarrow> exn + pystr"
  validate_str_list :: "json \<Rightarrow> exn + pystr list"

text \<open>\<^verbatim>\<open>os.getenv(name, default)\<close>.\<close>

definition getenv :: "runtime \<Rightarrow> pystr \<Rightarrow> pystr \<Rightarrow> pystr" where
  "getenv rt name dflt = (case environ rt name of Some v \<Rightarrow> v | None \<Rightarrow> dflt)"

text \<open>
  \<^verbatim>\<open>Response.raise_for_status()\<close>: any status outside 200..299 raises.
\<close>

definition raise_for_status :: "response \<Rightarrow> exn option" where
  "raise_for_status r =
     (if 200 \<le> status_code r \<and> status_code r \<le> 299 then None
      else Some (HTTPStatusError (status_code r)))"

text \<open>
  \<^verbatim>\<open>s.find(c)\<close> and \<^verbatim>\<open>s.rfind(c)\<close> for a one-character \<open>c\<close> (\<open>-1\<close> when absent),
  and the slice \<^verbatim>\<open>s[i:j]\<close>.
\<close>

definition py_find :: "pystr \<Rightarrow> nat \<Rightarrow> int" where
  "py_find s c =
     (if c \<in> set s then int (length (takeWhile (\<lambda>x. x \<noteq> c) s)) else - 1)"

definition py_rfind :: "pystr \<Rightarrow> nat \<Rightarrow> int" where
  "py_rfind s c =
     (if c \<in> set s
      then int (length s) - 1 - int (length (takeWhile (\<lambda>x. x \<noteq> c) (rev s)))
      else - 1)"

definition py_slice :: "'a list \<Rightarrow> int \<Rightarrow> int \<Rightarrow> 'a list" where
  "py_slice s i j =
     (let n = int (length s);
          lo = (if i < 0 then max 0 (i + n) else min i n);
          hi = (if j < 0 then max 0 (j + n) else min j n)
      in take (nat (hi - lo)) (drop (nat lo) s))"

text \<open>Truth value of a JSON value, \<^verbatim>\<open>a or b\<close>, and \<^verbatim>\<open>d.get(key, default)\<close>.\<close>

fun truthy :: "json \<Rightarrow> bool" where
  "truthy JNone = False"
| "truthy (JBool b) = b"
| "truthy (JInt i) = (i \<noteq> 0)"
| "truthy (JFloat f) = (case f of Finite m e \<Rightarrow> m \<noteq> 0 | _ \<Rightarrow> True)"
| "truthy (JStr s) = (s \<noteq> [])"
| "truthy (JList xs) = (xs \<noteq> [])"
| "truthy (JDict kvs) = (kvs \<noteq> [])"

definition py_or :: "json \<Rightarrow> json \<Rightarrow> json" where
  "py_or a b = (if truthy a then a else b)"

definition dict_get :: "json \<Rightarrow> pystr \<Rightarrow> json \<Rightarrow> exn + json" where
  "dict_get obj key dflt =
     (case obj of
        JDict kvs \<Rightarrow> Inr (case map_of kvs key of Some v \<Rightarrow> v | None \<Rightarrow> dflt)
      | _ \<Rightarrow> Inl AttributeError)"

section \<open>The external-model path\<close>

text \<open>
  The f-string of the source: the fixed instructions, the summary type, and the first
  12000 characters of the text.
\<close>

definition prompt_of :: "pystr \<Rightarrow> pystr \<Rightarrow> pystr" where
  \<open>prompt_of summary_type text =
     ascii ''Summarize the document into this JSON with short, precise bullets:\<newline>''
     @ ascii ''{\<newline>  "purpose": "...",\<newline>  "insights": ["...", "..."],\<newline>''
     @ ascii ''  "risks": ["...", "..."],\<newline>  "next_steps": ["...", "..."]\<newline>}\<newline>''
     @ ascii ''Constraints: U.S. English, numbered bullets where useful, no fluff. ''
     @ ascii ''Summary type: '' @ summary_type @ ascii ''.\<newline>Document:\<newline>''
     @ take 12000 text\<close>

text \<open>The endpoint, the headers and the JSON payload of the outbound request.\<close>

definition api_url :: pystr where
  "api_url = ascii ''https://api.openai.com/v1/responses''"

definition request_headers :: "pystr \<Rightarrow> (pystr \<times> pystr) list" where
  "request_headers openai_key = [(ascii ''Authorization'', ascii ''Bearer '' @ openai_key)]"

definition request_payload :: "pystr \<Rightarrow> json" where
  "request_payload prompt =
     JDict [(ascii ''model'', JStr (ascii ''gpt-4o-mini'')),
            (ascii ''input'',
             JList [JDict [(ascii ''role'', JStr (ascii ''user'')),
                           (ascii ''content'', JStr prompt)]])]"

text \<open>
  The outbound call: \<^verbatim>\<open>import httpx\<close>, the POST with a 60 second timeout,
  \<^verbatim>\<open>raise_for_status\<close>, \<^verbatim>\<open>r.json()\<close>.  Each step either raises or hands its value
  to the next.
\<close>

definition fetch_data :: "runtime \<Rightarrow> pystr \<Rightarrow> pystr \<Rightarrow> exn + json" where
  "fetch_data rt openai_key prompt =
     (case import_httpx rt of
        Some e \<Rightarrow> Inl e
      | None \<Rightarrow>
          (case client_post rt 60 api_url (request_payload prompt)
                  (request_headers openai_key) of
             Inl e \<Rightarrow> Inl e
           | Inr r \<Rightarrow>
               (case raise_for_status r of
                  Some e \<Rightarrow> Inl e
                | None \<Rightarrow> response_json r)))"

text \<open>
  The span from the first \<^verbatim>\<open>{\<close> to the last \<^verbatim>\<open>}\<close> of \<^verbatim>\<open>str(data)\<close>, empty when
  either brace is missing.
\<close>

definition brace_body :: "pystr \<Rightarrow> pystr" where
  "brace_body txt =
     (let start = py_find txt 0x7B;
          stop = py_rfind txt 0x7D
      in if start \<noteq> - 1 \<and> stop \<noteq> - 1 then py_slice txt start (stop + 1) else [])"

text \<open>
  The \<^verbatim>\<open>SummaryOut(...)\<close> call of the external path: the four values taken from
  the parsed object are validated by pydantic, \<^verbatim>\<open>notes\<close> keeps its default, and
  \<^verbatim>\<open>model_used\<close> is a literal.
\<close>

definition summary_of_parsed :: "runtime \<Rightarrow> json \<Rightarrow> exn + SummaryOut" where
  "summary_of_parsed rt parsed =
     (case dict_get parsed (ascii ''purpose'') (JStr []) of
        Inl e \<Rightarrow> Inl e
      | Inr p \<Rightarrow>
     (case dict_get parsed (ascii ''insights'') (JList []) of
        Inl e \<Rightarrow> Inl e
      | Inr i \<Rightarrow>
     (case dict_get parsed (ascii ''risks'') (JList []) of
        Inl e \<Rightarrow> Inl e
      | Inr r \<Rightarrow>
     (case dict_get parsed (ascii ''next_steps'') (JList []) of
        Inl e \<Rightarrow> Inl e
      | Inr n \<Rightarrow>
     (case validate_str rt p of
        Inl e \<Rightarrow> Inl e
      | Inr p' \<Rightarrow>
     (case validate_str_list rt (py_or i (JList [])) of
        Inl e \<Rightarrow> Inl e
      | Inr i' \<Rightarrow>
     (case validate_str_list rt (py_or r (JList [])) of
        Inl e \<Rightarrow> Inl e
      | Inr r' \<Rightarrow>
     (case validate_str_list rt (py_or n (JList [])) of
        Inl e \<Rightarrow> Inl e
      | Inr n' \<Rightarrow>
          Inr \<lparr> purpose = p', insights = i', risks = r', next_steps = n',
                notes = None, model_used = ascii ''gpt-4o-mini'' \<rparr>))))))))"

text \<open>
  \<^verbatim>\<open>json.loads(body)\<close>: the empty string is never a JSON document; on any other
  string the result is the runtime's.
\<close>

definition loads :: "runtime \<Rightarrow> pystr \<Rightarrow> exn + json" where
  "loads rt body = (if body = [] then Inl JSONDecodeError else json_loads rt body)"

text \<open>The body of the \<^verbatim>\<open>try\<close> block: \<open>Inl\<close> is an exception raised inside it.\<close>

definition call_model :: "runtime \<Rightarrow> pystr \<Rightarrow> pystr \<Rightarrow> pystr \<Rightarrow> exn + SummaryOut" where
  "call_model rt openai_key text summary_type =
     (case fetch_data rt openai_key (prompt_of summary_type text) of
        Inl e \<Rightarrow> Inl e
      | Inr data \<Rightarrow>
          (case loads rt (brace_body (py_str rt data)) of
             Inl e \<Rightarrow> Inl e
           | Inr parsed \<Rightarrow> summary_of_parsed rt parsed))"


section \<open>The endpoint\<close>

text \<open>
  What the handler raises: an \<^verbatim>\<open>HTTPException\<close> with its status code and detail,
  or the \<^verbatim>\<open>AssertionError\<close> of its \<^verbatim>\<open>assert\<close>.  \<open>Inr\<close> is the returned
  \<^verbatim>\<open>SummaryOut\<close>, which the framework sends with status 200.
\<close>

datatype failure = HTTPException nat pystr | AssertionError

text \<open>
  An uploaded file as the handler uses it: the file name of the multipart part and the
  bytes that \<^verbatim>\<open>upload.read()\<close> returns.
\<close>

record UploadFile =
  filename :: pystr
  content :: "byte list"

definition read_file_bytes :: "runtime \<Rightarrow> UploadFile \<Rightarrow> failure + pystr" where
  "read_file_bytes rt upload =
     (if endswith (str_lower rt (filename upload)) (ascii ''.txt'')
      then Inr (decode_utf8_ignore (content upload))
      else Inl (HTTPException 400
                 (ascii ''Only .txt accepted in this minimal build. ''
                  @ ascii ''Use 'text' field for pasted content.'')))"

text \<open>
  Lines 56 to 101 of \<^verbatim>\<open>summarize\<close>: the external path when the credential is not
  empty after stripping, with every exception of the \<^verbatim>\<open>try\<close> block caught and
  dropped, and the heuristic summary otherwise.
\<close>

definition produce_summary :: "runtime \<Rightarrow> pystr \<Rightarrow> pystr \<Rightarrow> SummaryOut" where
  "produce_summary rt text summary_type =
     (let openai_key = strip (getenv rt (ascii ''OPENAI_API_KEY'') [])
      in if openai_key \<noteq> [] then
           (case call_model rt openai_key text summary_type of
              Inr out \<Rightarrow> out
            | Inl e \<Rightarrow> heuristic_summarize text)
         else heuristic_summarize text)"

text \<open>
  \<^verbatim>\<open>summarize\<close>: the input guard (\<^verbatim>\<open>not text\<close> holds for a missing and for an
  empty text; an upload object is always true), the file read that overwrites
  \<^verbatim>\<open>text\<close>, the assertion, and the summary.
\<close>

definition summarize ::
  "runtime \<Rightarrow> pystr option \<Rightarrow> UploadFile option \<Rightarrow> pystr \<Rightarrow> failure + SummaryOut" where
  "summarize rt text file summary_type =
     (if (text = None \<or> text = Some []) \<and> file = None
      then Inl (HTTPException 400 (ascii ''Provide 'text' or a .txt 'file'.''))
      else
        (case (case file of
                 Some f \<Rightarrow> (case read_file_bytes rt f of
                              Inl e \<Rightarrow> Inl e
                            | Inr t \<Rightarrow> Inr (Some t))
               | None \<Rightarrow> Inr text) of
           Inl e \<Rightarrow> Inl e
         | Inr None \<Rightarrow> Inl AssertionError
         | Inr (Some t) \<Rightarrow> Inr (produce_summary rt t summary_type)))"

section \<open>Concrete runtimes\<close>

text \<open>
  Runtimes to run the handler on.  \<open>ascii_lower\<close> is \<^verbatim>\<open>str.lower\<close> on ASCII
  strings; the validators accept exactly a string and a list of strings;
  \<open>offline_runtime\<close> has no credential and no \<^verbatim>\<open>httpx\<close>; \<open>timeout_runtime\<close> has a
  credential and an outbound call that times out.
\<close>

definition ascii_lower :: "pystr \<Rightarrow> pystr" where
  "ascii_lower s = map (\<lambda>c. if 0x41 \<le> c \<and> c \<le> 0x5A then c + 0x20 else c) s"

fun strict_str :: "json \<Rightarrow> exn + pystr" where
  "strict_str (JStr s) = Inr s"
| "strict_str _ = Inl ValidationError"

fun strict_str_list_items :: "json list \<Rightarrow> exn + pystr list" where
  "strict_str_list_items [] = Inr []"
| "strict_str_list_items (JStr s # xs) =
     (case strict_str_list_items xs of Inl e \<Rightarrow> Inl e | Inr ss \<Rightarrow> Inr (s # ss))"
| "strict_str_list_items (_ # xs) = Inl ValidationError"

fun strict_str_list :: "json \<Rightarrow> exn + pystr list" where
  "strict_str_list (JList xs) = strict_str_list_items xs"
| "strict_str_list _ = Inl ValidationError"

definition offline_runtime :: runtime where
  "offline_runtime =
     \<lparr> environ = (\<lambda>name. None),
       str_lower = ascii_lower,
       import_httpx = Some ImportError,
       client_post = (\<lambda>timeout url payload headers. Inl TransportError),
       py_str = (\<lambda>data. []),
       json_loads = (\<lambda>body. Inl JSONDecodeError),
       validate_str = strict_str,
       validate_str_list = strict_str_list \<rparr>"

definition timeout_runtime :: runtime where
  "timeout_runtime =
     offline_runtime
       \<lparr> environ := (\<lambda>name. if name = ascii ''OPENAI_API_KEY''
                               then Some (ascii '' sk-test '') else None),
         import_httpx := None,
         client_post := (\<lambda>timeout url payload headers. Inl TimeoutException) \<rparr>"

text \<open>
  A runtime whose outbound call succeeds: the provider answers 200 with a JSON string
  holding an object, \<^verbatim>\<open>str\<close> of a string is the string, and \<^verbatim>\<open>json.loads\<close>
  of that one document is its object.
\<close>

definition answer_text :: pystr where
  \<open>answer_text = ascii ''{"purpose": "p", "insights": ["i"], "risks": []}''\<close>

definition answering_runtime :: runtime where
  "answering_runtime =
     timeout_runtime
       \<lparr> client_post := (\<lambda>timeout url payload headers.
            Inr \<lparr> status_code = 200, response_json = Inr (JStr answer_text) \<rparr>),
         py_str := (\<lambda>data. case data of JStr s \<Rightarrow> s | _ \<Rightarrow> []),
         json_loads := (\<lambda>body.
            if body = answer_text
            then Inr (JDict [(ascii ''purpose'', JStr (ascii ''p'')),
                             (ascii ''insights'', JList [JStr (ascii ''i'')]),
                             (ascii ''risks'', JList [])])
            else Inl JSONDecodeError) \<rparr>"

text \<open>Inputs used to run the handler: a seven-line text and three uploads.\<close>

definition seven_lines :: pystr where
  "seven_lines =
     ascii ''Line1\<newline>Line2\<newline>Line3\<newline>Line4\<newline>Line5\<newline>Line6\<newline>Line7''"

definition pdf_upload :: UploadFile where
  "pdf_upload = \<lparr> filename = ascii ''Report.PDF'', content = [0x25, 0x50, 0x44, 0x46] \<rparr>"

definition txt_upload :: UploadFile where
  "txt_upload = \<lparr> filename = ascii ''Notes.TXT'', content = [0x66, 0x69, 0x6C, 0x65] \<rparr>"

definition broken_upload :: UploadFile where
  "broken_upload = \<lparr> filename = ascii ''a.txt'', content = [0x41, 0xFF, 0x42] \<rparr>"

section \<open>The response the framework sends\<close>



text \<open>
  A runtime whose outbound call succeeds with a document that holds the escape
  \<^verbatim>\<open>\ud800\<close>: \<^verbatim>\<open>json.loads\<close> turns it into the lone surrogate U+D800.
\<close>

definition surrogate_text :: pystr where
  \<open>surrogate_text = ascii ''{"purpose": "'' @ [0x5C] @ ascii ''ud800"}''\<close>

definition surrogate_runtime :: runtime where
  "surrogate_runtime =
     answering_runtime
       \<lparr> client_post := (\<lambda>timeout url payload headers.
            Inr \<lparr> status_code = 200, response_json = Inr (JStr surrogate_text) \<rparr>),
         json_loads := (\<lambda>body.
            if body = surrogate_text
            then Inr (JDict [(ascii ''purpose'', JStr [0xD800])])
            else Inl JSONDecodeError) \<rparr>"

section \<open>Evaluation rules\<close>

lemmas str_eval =
  ascii_def strip_def splitlines_def is_space_def is_linebreak_def endswith_def
  ascii_lower_def

lemmas rt_eval =
  offline_runtime_def timeout_runtime_def answering_runtime_def surrogate_runtime_def
  getenv_def

lemmas utf8_eval =
  decode_utf8_ignore_def decode_utf8_replace_def utf8_step_def utf8_two_def
  utf8_three_def utf8_four_def is_cont_def

section \<open>The string functions on examples\<close>

lemma splitlines_examples:
  "splitlines (ascii ''a\<newline>\<newline>b'') = [ascii ''a'', [], ascii ''b'']"
  "splitlines (ascii ''a\<newline>'') = [ascii ''a'']"
  "splitlines [0x0D, 0x0A, 0x41, 0x0D, 0x42, 0x0D] = [[], [0x41], [0x42]]"
  "splitlines [] = []"
  by (simp_all add: str_eval)

lemma strip_example: "strip (ascii ''  ab c  '') = ascii ''ab c''"
  by (simp add: str_eval)

lemma endswith_examples:
  "endswith (ascii ''notes.txt'') (ascii ''.txt'')"
  "\<not> endswith (ascii ''txt'') (ascii ''.txt'')"
  "\<not> endswith (ascii ''notes.txt.pdf'') (ascii ''.txt'')"
  by (simp_all add: str_eval)

lemma brace_body_examples:
  "brace_body (ascii ''ab{c}d}x'') = ascii ''{c}d}''"
  "brace_body (ascii ''no braces'') = []"
  "brace_body (ascii ''}{'') = []"
  by (simp_all add: brace_body_def py_find_def py_rfind_def py_slice_def ascii_def)

lemma decode_examples:
  "decode_utf8_ignore [0xE2, 0x82, 0xAC, 0x41, 0xFF, 0xC3, 0xA2, 0xF0, 0x9F, 0x98, 0x80, 0xE2, 0x82]
     = [0x20AC, 0x41, 0xE2, 0x1F600]"
  "decode_utf8_replace [0xE2, 0x82, 0xAC, 0x41, 0xFF, 0xC3, 0xA2, 0xF0, 0x9F, 0x98, 0x80, 0xE2, 0x82]
     = [0x20AC, 0x41, 0xFFFD, 0xE2, 0x1F600, 0xFFFD]"
  "decode_utf8_ignore [0xED, 0xA0, 0x80, 0xC0, 0x80] = []"
  by (simp_all add: utf8_eval)

section \<open>The heuristic summary: fixed fields and bounds\<close>

lemma model_used_heuristic: "model_used (heuristic_summarize text) = ascii ''heuristic''"
  by (simp add: heuristic_summarize_def Let_def)

lemma risks_heuristic:
  "risks (heuristic_summarize text) = [ascii ''Not verified. Heuristic mode.'']"
  by (simp add: heuristic_summarize_def Let_def)

lemma insights_heuristic_nonempty: "insights (heuristic_summarize text) \<noteq> []"
  by (simp add: heuristic_summarize_def Let_def)

lemma insights_heuristic_le5: "length (insights (heuristic_summarize text)) \<le> 5"
  by (simp add: heuristic_summarize_def Let_def)

lemma insights_seven_lines:
  "insights (heuristic_summarize seven_lines) =
     map ascii [''Line1'', ''Line2'', ''Line3'', ''Line5'', ''Line6'']"
  by (simp add: heuristic_summarize_def seven_lines_def str_eval Let_def)

lemma seven_lines_nonempty: "seven_lines \<noteq> []"
  by (simp add: seven_lines_def ascii_def)

text \<open>Every line of \<open>splitlines\<close> is made of characters of the string.\<close>

lemma splitlines_from_chars:
  "ln \<in> set (splitlines_from cur s) \<Longrightarrow> set ln \<subseteq> set cur \<union> set s"
proof (induction cur s rule: splitlines_from.induct)
  case (1 cur)
  then show ?case by (simp split: if_splits)
next
  case (2 cur c s)
  show ?case
  proof (cases "is_linebreak c")
    case False
    with 2 show ?thesis by auto
  next
    case True
    show ?thesis
    proof (cases "c = 0x0D")
      case False
      with True 2 show ?thesis by auto
    next
      case cr: True
      show ?thesis
      proof (cases s)
        case Nil
        with True cr 2 show ?thesis by auto
      next
        case (Cons d s')
        with True cr 2 show ?thesis by (cases "d = 0x0A") auto
      qed
    qed
  qed
qed

lemma strip_all_space: "list_all is_space ln \<Longrightarrow> strip ln = []"
proof -
  assume "list_all is_space ln"
  then have h: "dropWhile is_space ln = []"
    by (simp add: list_all_iff dropWhile_eq_Nil_conv)
  show ?thesis by (simp only: strip_def h rev.simps dropWhile.simps)
qed

lemma strip_empty_all_space:
  assumes "strip ln = []"
  shows "list_all is_space ln"
proof -
  let ?d = "dropWhile is_space ln"
  from assms have "dropWhile is_space (rev ?d) = []" by (simp add: strip_def)
  then have a: "\<forall>x \<in> set ?d. is_space x" by (simp add: dropWhile_eq_Nil_conv)
  have "?d = []"
  proof (rule ccontr)
    assume n: "?d \<noteq> []"
    then have "\<not> is_space (hd ?d)" by (rule hd_dropWhile)
    moreover from n have "hd ?d \<in> set ?d" by simp
    ultimately show False using a by blast
  qed
  then show ?thesis by (simp add: dropWhile_eq_Nil_conv list_all_iff)
qed

lemma whitespace_has_no_lines:
  assumes "list_all is_space text"
  shows "\<forall>ln \<in> set (splitlines text). strip ln = []"
proof
  fix ln assume "ln \<in> set (splitlines text)"
  then have "set ln \<subseteq> set text"
    using splitlines_from_chars[of ln "[]" "text"] by (simp add: splitlines_def)
  with assms have "list_all is_space ln" by (auto simp: list_all_iff)
  then show "strip ln = []" by (rule strip_all_space)
qed

lemma insights_no_lines:
  assumes "\<forall>ln \<in> set (splitlines text). strip ln = []"
  shows "insights (heuristic_summarize text) = [ascii ''No salient lines detected.'']"
proof -
  from assms have "filter (\<lambda>ln. strip ln \<noteq> []) (splitlines text) = []"
    by (simp add: filter_empty_conv)
  then show ?thesis by (simp add: heuristic_summarize_def Let_def)
qed

lemma insights_all_whitespace:
  "list_all is_space text \<Longrightarrow>
   insights (heuristic_summarize text) = [ascii ''No salient lines detected.'']"
  by (rule insights_no_lines[OF whitespace_has_no_lines])

section \<open>The endpoint: which branch runs\<close>

lemma produce_summary_no_key:
  "strip (getenv rt (ascii ''OPENAI_API_KEY'') []) = [] \<Longrightarrow>
   produce_summary rt text summary_type = heuristic_summarize text"
  by (simp add: produce_summary_def)

text \<open>
  No credential: the variable is absent, or its value is whitespace only.
\<close>

lemma strip_getenv_empty_iff:
  "strip (getenv rt name []) = [] \<longleftrightarrow>
   (case environ rt name of None \<Rightarrow> True | Some v \<Rightarrow> list_all is_space v)"
proof (cases "environ rt name")
  case None
  then show ?thesis by (simp add: getenv_def strip_def)
next
  case (Some v)
  have "strip v = [] \<longleftrightarrow> list_all is_space v"
    using strip_all_space strip_empty_all_space by blast
  with Some show ?thesis by (simp add: getenv_def)
qed

lemma no_credential_iff:
  "strip (getenv rt (ascii ''OPENAI_API_KEY'') []) = [] \<longleftrightarrow>
   (case environ rt (ascii ''OPENAI_API_KEY'') of
      None \<Rightarrow> True
    | Some v \<Rightarrow> list_all is_space v)"
  by (rule strip_getenv_empty_iff)



lemma summarize_text_only:
  "t \<noteq> [] \<Longrightarrow> summarize rt (Some t) None summary_type = Inr (produce_summary rt t summary_type)"
  by (simp add: summarize_def)

lemma summarize_file:
  "summarize rt text (Some f) summary_type =
     (case read_file_bytes rt f of
        Inl e \<Rightarrow> Inl e
      | Inr t \<Rightarrow> Inr (produce_summary rt t summary_type))"
  by (simp add: summarize_def split: sum.splits)

text \<open>
  A request that passes the input guard and the file check: no file and a non-empty
  text, or a file with an accepted name.  Its effective text \<open>eff\<close> is the text, or the
  decoded content of the file.
\<close>

lemma summarize_validated:
  assumes "case file of
             None \<Rightarrow> text = Some eff \<and> eff \<noteq> []
           | Some f \<Rightarrow> endswith (str_lower rt (filename f)) (ascii ''.txt'')
                       \<and> eff = decode_utf8_ignore (content f)"
  shows "summarize rt text file summary_type = Inr (produce_summary rt eff summary_type)"
proof (cases "file")
  case None
  with assms show ?thesis by (simp add: summarize_text_only)
next
  case (Some f)
  with assms show ?thesis by (simp add: summarize_file read_file_bytes_def)
qed

lemma summarize_never_asserts: "summarize rt text file summary_type \<noteq> Inl AssertionError"
  by (auto simp: summarize_def read_file_bytes_def split: option.splits sum.splits if_splits)

lemma offline_no_key: "strip (getenv offline_runtime (ascii ''OPENAI_API_KEY'') []) = []"
  by (simp add: rt_eval strip_def)

lemma timeout_key:
  "strip (getenv timeout_runtime (ascii ''OPENAI_API_KEY'') []) = ascii ''sk-test''"
  by (simp add: rt_eval str_eval)

text \<open>The external path is not empty: on \<open>answering_runtime\<close> it returns the model's summary.\<close>

lemma external_path_can_succeed:
  "produce_summary answering_runtime (ascii ''hello'') (ascii ''short'') =
     \<lparr> purpose = ascii ''p'', insights = [ascii ''i''], risks = [], next_steps = [],
       notes = None, model_used = ascii ''gpt-4o-mini'' \<rparr>"
  by (simp add: produce_summary_def rt_eval strip_def is_space_def ascii_def call_model_def
      fetch_data_def raise_for_status_def loads_def brace_body_def py_find_def py_rfind_def
      py_slice_def answer_text_def summary_of_parsed_def dict_get_def py_or_def Let_def)

section \<open>The decoder against the encoder\<close>

text \<open>Base-64 digits of a code point, as the encoder cuts them and the decoder joins them.\<close>

lemma digits2:
  fixes a b :: nat
  assumes "b < 64"
  shows "(a * 64 + b) div 64 = a" "(a * 64 + b) mod 64 = b"
  using assms by simp_all

lemma digits3:
  fixes a b d :: nat
  assumes "b < 64" "d < 64"
  shows "(a * 4096 + b * 64 + d) div 4096 = a"
    and "(a * 4096 + b * 64 + d) div 64 mod 64 = b"
    and "(a * 4096 + b * 64 + d) mod 64 = d"
proof -
  have e: "a * 4096 + b * 64 + d = (a * 64 + b) * 64 + d" by simp
  have q: "(a * 4096 + b * 64 + d) div 64 = a * 64 + b"
    unfolding e using assms(2) by simp
  show "(a * 4096 + b * 64 + d) div 64 mod 64 = b"
    unfolding q using assms(1) by simp
  show "(a * 4096 + b * 64 + d) mod 64 = d"
    using digits2(2)[OF assms(2), of "a * 64 + b"] by (simp add: algebra_simps)
  have "(a * 4096 + b * 64 + d) div 4096 = (a * 4096 + b * 64 + d) div 64 div 64"
    by (simp add: div_mult2_eq[symmetric])
  also have "\<dots> = a" unfolding q using assms(1) by simp
  finally show "(a * 4096 + b * 64 + d) div 4096 = a" .
qed

lemma digits4:
  fixes a b d e :: nat
  assumes "b < 64" "d < 64" "e < 64"
  shows "(a * 262144 + b * 4096 + d * 64 + e) div 262144 = a"
    and "(a * 262144 + b * 4096 + d * 64 + e) div 4096 mod 64 = b"
    and "(a * 262144 + b * 4096 + d * 64 + e) div 64 mod 64 = d"
    and "(a * 262144 + b * 4096 + d * 64 + e) mod 64 = e"
proof -
  have e: "a * 262144 + b * 4096 + d * 64 + e = (a * 64 + b) * 4096 + d * 64 + e" by simp
  show "(a * 262144 + b * 4096 + d * 64 + e) div 64 mod 64 = d"
    unfolding e by (rule digits3(2)[OF assms(2,3)])
  show "(a * 262144 + b * 4096 + d * 64 + e) mod 64 = e"
    unfolding e by (rule digits3(3)[OF assms(2,3)])
  have q: "(a * 262144 + b * 4096 + d * 64 + e) div 4096 = a * 64 + b"
    unfolding e by (rule digits3(1)[OF assms(2,3)])
  show "(a * 262144 + b * 4096 + d * 64 + e) div 4096 mod 64 = b"
    unfolding q using assms(1) by simp
  have "(a * 262144 + b * 4096 + d * 64 + e) div 262144 = (a * 262144 + b * 4096 + d * 64 + e) div 4096 div 64"
    by (simp add: div_mult2_eq[symmetric])
  also have "\<dots> = a" unfolding q using assms(1) by simp
  finally show "(a * 262144 + b * 4096 + d * 64 + e) div 262144 = a" .
qed

lemma utf8_two_Some:
  assumes "utf8_two ch s = (Some c, k)" "0xC2 \<le> ch" "ch < 0xE0"
  shows "utf8_encode_cp c = ch # take k s \<and> scalar c"
proof -
  from assms(1) obtain ch2 s2 where s: "s = ch2 # s2" and c2: "0x80 \<le> ch2" "ch2 < 0xC0"
    and c: "c = (ch - 0xC0) * 0x40 + (ch2 - 0x80)" and k: "k = 1"
    by (auto simp: utf8_two_def is_cont_def split: list.splits if_splits)
  define a b where "a = ch - 0xC0" and "b = ch2 - 0x80"
  with assms(2,3) c2 have ab: "ch = 0xC0 + a" "ch2 = 0x80 + b" "2 \<le> a" "a < 32" "b < 64"
    by simp_all
  have c': "c = a * 64 + b" using c a_def b_def by simp
  have "0x80 \<le> c" "c < 0x800" using c' ab by simp_all
  moreover have "c div 64 = a" "c mod 64 = b" unfolding c' using digits2[OF ab(5)] by simp_all
  ultimately show ?thesis using s k ab by (simp add: utf8_encode_cp_def scalar_def)
qed

lemma utf8_three_Some:
  assumes "utf8_three ch s = (Some c, k)" "0xE0 \<le> ch" "ch < 0xF0"
  shows "utf8_encode_cp c = ch # take k s \<and> scalar c"
proof -
  from assms(1) obtain ch2 ch3 s3 where s: "s = ch2 # ch3 # s3" and c2: "0x80 \<le> ch2" "ch2 < 0xC0"
    and c3: "0x80 \<le> ch3" "ch3 < 0xC0"
    and r: "ch = 0xE0 \<longrightarrow> 0xA0 \<le> ch2" "ch = 0xED \<longrightarrow> ch2 < 0xA0"
    and c: "c = (ch - 0xE0) * 0x1000 + (ch2 - 0x80) * 0x40 + (ch3 - 0x80)" and k: "k = 2"
    by (auto simp: utf8_three_def is_cont_def split: list.splits if_splits)
  define a b d where "a = ch - 0xE0" and "b = ch2 - 0x80" and "d = ch3 - 0x80"
  with assms(2,3) c2 c3 r have ab: "ch = 0xE0 + a" "ch2 = 0x80 + b" "ch3 = 0x80 + d" "a < 16" "b < 64" "d < 64"
     "a = 0 \<longrightarrow> 32 \<le> b" "a = 13 \<longrightarrow> b < 32"
    by auto
  have c': "c = a * 4096 + b * 64 + d" using c a_def b_def d_def by simp
  have "0x800 \<le> c" "c < 0x10000" using c' ab by auto
  moreover have "c < 0xD800 \<or> 0xE000 \<le> c"
  proof -
    consider "a < 13" | "a = 13" | "14 \<le> a" by linarith
    then show ?thesis
    proof cases
      case 1 then show ?thesis using c' ab(5,6) by simp
    next
      case 2 then show ?thesis using c' ab(6,8) by simp
    next
      case 3 then show ?thesis using c' by simp
    qed
  qed
  moreover have "c div 4096 = a" "c div 64 mod 64 = b" "c mod 64 = d"
    unfolding c' using digits3[OF ab(5,6)] by simp_all
  ultimately show ?thesis using s k ab by (simp add: utf8_encode_cp_def scalar_def)
qed

lemma utf8_four_Some:
  assumes "utf8_four ch s = (Some c, k)" "0xF0 \<le> ch" "ch < 0xF5"
  shows "utf8_encode_cp c = ch # take k s \<and> scalar c"
proof -
  from assms(1) obtain ch2 ch3 ch4 s4 where s: "s = ch2 # ch3 # ch4 # s4" and c2: "0x80 \<le> ch2" "ch2 < 0xC0"
    and c3: "0x80 \<le> ch3" "ch3 < 0xC0" and c4: "0x80 \<le> ch4" "ch4 < 0xC0"
    and r: "ch = 0xF0 \<longrightarrow> 0x90 \<le> ch2" "ch = 0xF4 \<longrightarrow> ch2 < 0x90"
    and c: "c = (ch - 0xF0) * 0x40000 + (ch2 - 0x80) * 0x1000 + (ch3 - 0x80) * 0x40 + (ch4 - 0x80)" and k: "k = 3"
    by (auto simp: utf8_four_def is_cont_def split: list.splits if_splits)
  define a b d e where "a = ch - 0xF0" and "b = ch2 - 0x80" and "d = ch3 - 0x80" and "e = ch4 - 0x80"
  with assms(2,3) c2 c3 c4 r have ab: "ch = 0xF0 + a" "ch2 = 0x80 + b" "ch3 = 0x80 + d" "ch4 = 0x80 + e"
     "a < 5" "b < 64" "d < 64" "e < 64" "a = 0 \<longrightarrow> 16 \<le> b" "a = 4 \<longrightarrow> b < 16"
    by auto
  have c': "c = a * 262144 + b * 4096 + d * 64 + e" using c a_def b_def d_def e_def by simp
  have "0x10000 \<le> c" "c < 0x110000" using c' ab by auto
  moreover have "c div 262144 = a" "c div 4096 mod 64 = b" "c div 64 mod 64 = d" "c mod 64 = e"
    unfolding c' using digits4[OF ab(6,7,8)] by simp_all
  ultimately show ?thesis using s k ab by (simp add: utf8_encode_cp_def scalar_def)
qed

lemma utf8_step_Some:
  assumes "utf8_step ch s = (Some c, k)"
  shows "utf8_encode_cp c = ch # take k s \<and> scalar c"
proof -
  consider "ch < 0x80" | "0xC2 \<le> ch" "ch < 0xE0" | "0xE0 \<le> ch" "ch < 0xF0" | "0xF0 \<le> ch" "ch < 0xF5"
    | "0x80 \<le> ch" "ch < 0xC2" | "0xF5 \<le> ch" by linarith
  then show ?thesis
  proof cases
    case 1 with assms show ?thesis by (auto simp: utf8_step_def utf8_encode_cp_def scalar_def)
  next
    case 2 with assms utf8_two_Some[of ch s c k] show ?thesis by (simp add: utf8_step_def)
  next
    case 3 with assms utf8_three_Some[of ch s c k] show ?thesis by (simp add: utf8_step_def)
  next
    case 4 with assms utf8_four_Some[of ch s c k] show ?thesis by (simp add: utf8_step_def)
  next
    case 5 with assms show ?thesis by (simp add: utf8_step_def)
  next
    case 6 with assms show ?thesis by (simp add: utf8_step_def)
  qed
qed

text \<open>
  With the empty replacement the decoder only removes bytes: the code points it returns
  are scalar values whose encoding, read in order, is found inside the input.
\<close>

lemma utf8_encode_Cons: "utf8_encode (c # cs) = utf8_encode_cp c @ utf8_encode cs"
  by (simp add: utf8_encode_def)

lemma utf8_decode_ignore_subseq: "subseq (utf8_encode (utf8_decode [] bs)) bs"
proof (induction bs rule: length_induct)
  case (1 bs)
  show ?case
  proof (cases bs)
    case Nil
    then show ?thesis by (simp add: utf8_encode_def)
  next
    case (Cons ch s)
    obtain r k where step: "utf8_step ch s = (r, k)" by (cases "utf8_step ch s")
    have "length (drop k s) < length bs" using Cons by simp
    with 1 have ih: "subseq (utf8_encode (utf8_decode [] (drop k s))) (drop k s)" by blast
    show ?thesis
    proof (cases r)
      case None
      have "subseq (drop k s) s"
        by (rule suffix_imp_subseq[OF suffix_drop])
      then have "subseq (drop k s) (ch # s)"
        by (rule list_emb_Cons)
      with ih have "subseq (utf8_encode (utf8_decode [] (drop k s))) (ch # s)"
        using subseq_order.trans by blast
      with None step Cons show ?thesis by simp
    next
      case (Some c)
      with step have enc: "utf8_encode_cp c = ch # take k s" using utf8_step_Some by blast
      have "subseq ((ch # take k s) @ utf8_encode (utf8_decode [] (drop k s)))
              ((ch # take k s) @ drop k s)"
        using ih by (simp only: subseq_append')
      then show ?thesis using Some step Cons enc by (simp add: utf8_encode_Cons)
    qed
  qed
qed

lemma utf8_decode_ignore_scalar: "list_all scalar (utf8_decode [] bs)"
proof (induction bs rule: length_induct)
  case (1 bs)
  show ?case
  proof (cases bs)
    case Nil
    then show ?thesis by simp
  next
    case (Cons ch s)
    obtain r k where step: "utf8_step ch s = (r, k)" by (cases "utf8_step ch s")
    have "length (drop k s) < length bs" using Cons by simp
    with 1 have ih: "list_all scalar (utf8_decode [] (drop k s))" by blast
    show ?thesis
    proof (cases r)
      case None
      with ih step Cons show ?thesis by simp
    next
      case (Some c)
      with step have "scalar c" using utf8_step_Some by blast
      with ih Some step Cons show ?thesis by simp
    qed
  qed
qed

text \<open>Well-formed input is decoded to exactly the string that was encoded.\<close>

lemma compose3:
  fixes c x a b d :: nat
  shows "c = x * 64 + d \<Longrightarrow> x = a * 64 + b \<Longrightarrow> c = a * 4096 + b * 64 + d"
  by simp

lemma compose4:
  fixes c x y a b d e :: nat
  shows "c = x * 64 + e \<Longrightarrow> x = y * 64 + d \<Longrightarrow> y = a * 64 + b \<Longrightarrow>
         c = a * 262144 + b * 4096 + d * 64 + e"
  by simp

lemma utf8_step_encode:
  assumes "scalar c"
  shows "\<exists>ch t. utf8_encode_cp c = ch # t \<and> utf8_step ch (t @ rest) = (Some c, length t)"
proof -
  consider "c < 0x80" | "0x80 \<le> c" "c < 0x800" | "0x800 \<le> c" "c < 0x10000" | "0x10000 \<le> c" by linarith
  then show ?thesis
  proof cases
    case 1
    then show ?thesis by (simp add: utf8_encode_cp_def utf8_step_def)
  next
    case 2
    define a b where "a = c div 64" and "b = c mod 64"
    have c: "c = a * 64 + b" by (simp add: a_def b_def)
    have ab: "2 \<le> a" "a < 32" "b < 64" using 2 by (auto simp: a_def b_def)
    have enc: "utf8_encode_cp c = [0xC0 + a, 0x80 + b]" using 2 by (simp add: utf8_encode_cp_def a_def b_def)
    have "utf8_step (0xC0 + a) ((0x80 + b) # rest) = (Some c, 1)"
      using ab by (simp add: utf8_step_def utf8_two_def is_cont_def c)
    with enc show ?thesis by simp
  next
    case 3
    define a b d where "a = c div 4096" and "b = c div 64 mod 64" and "d = c mod 64"
    have h: "c div 4096 = c div 64 div 64" by (simp add: div_mult2_eq[symmetric])
    have q1: "c div 64 = a * 64 + b" unfolding a_def b_def h by simp
    have q2: "c = c div 64 * 64 + d" unfolding d_def by simp
    have c: "c = a * 4096 + b * 64 + d" by (rule compose3[OF q2 q1])
    have ab: "a < 16" "b < 64" "d < 64" using 3 by (auto simp: a_def b_def d_def)
    have r1: "a = 0 \<longrightarrow> 32 \<le> b" using 3 c ab by auto
    have r2: "a = 13 \<longrightarrow> b < 32" using assms 3 c ab by (auto simp: scalar_def)
    have enc: "utf8_encode_cp c = [0xE0 + a, 0x80 + b, 0x80 + d]" using 3 by (simp add: utf8_encode_cp_def a_def b_def d_def)
    have "utf8_step (0xE0 + a) ((0x80 + b) # (0x80 + d) # rest) = (Some c, 2)"
      using ab r1 r2 by (auto simp: utf8_step_def utf8_three_def is_cont_def c)
    with enc show ?thesis by simp
  next
    case 4
    from assms 4 have lt: "c < 0x110000" by (simp add: scalar_def)
    define a b d e where "a = c div 262144" and "b = c div 4096 mod 64" and "d = c div 64 mod 64" and "e = c mod 64"
    have h1: "c div 262144 = c div 4096 div 64" by (simp add: div_mult2_eq[symmetric])
    have h2: "c div 4096 = c div 64 div 64" by (simp add: div_mult2_eq[symmetric])
    have q1: "c div 4096 = a * 64 + b" unfolding a_def b_def h1 by simp
    have q2: "c div 64 = c div 4096 * 64 + d" unfolding d_def h2 by simp
    have q3: "c = c div 64 * 64 + e" unfolding e_def by simp
    have c: "c = a * 262144 + b * 4096 + d * 64 + e"
      by (rule compose4[OF q3 q2 q1])
    have ab: "a < 5" "b < 64" "d < 64" "e < 64" using lt by (auto simp: a_def b_def d_def e_def)
    have r1: "a = 0 \<longrightarrow> 16 \<le> b" using 4 c ab by auto
    have r2: "a = 4 \<longrightarrow> b < 16" using lt c ab by auto
    have enc: "utf8_encode_cp c = [0xF0 + a, 0x80 + b, 0x80 + d, 0x80 + e]" using 4 by (simp add: utf8_encode_cp_def a_def b_def d_def e_def)
    have "utf8_step (0xF0 + a) ((0x80 + b) # (0x80 + d) # (0x80 + e) # rest) = (Some c, 3)"
      using ab r1 r2 by (auto simp: utf8_step_def utf8_four_def is_cont_def c)
    with enc show ?thesis by simp
  qed
qed

lemma utf8_decode_encode:
  "list_all scalar cs \<Longrightarrow> utf8_decode repl (utf8_encode cs) = cs"
proof (induction cs)
  case Nil
  then show ?case by (simp add: utf8_encode_def)
next
  case (Cons c cs)
  then have "scalar c" by simp
  from utf8_step_encode[OF this, of "utf8_encode cs"] obtain ch t where
    e: "utf8_encode_cp c = ch # t" and s: "utf8_step ch (t @ utf8_encode cs) = (Some c, length t)" by blast
  with Cons show ?case by (simp add: utf8_encode_Cons)
qed

section \<open>Which summaries can be sent\<close>





text \<open>On \<open>surrogate_runtime\<close> the external path succeeds and returns the surrogate.\<close>

lemma surrogate_key:
  "strip (getenv surrogate_runtime (ascii ''OPENAI_API_KEY'') []) = ascii ''sk-test''"
  by (simp add: rt_eval str_eval)


section \<open>Claims about the endpoint\<close>




text \<open>
  C2 (as the code behaves).  For the text of seven lines \<^verbatim>\<open>Line1\<close> to \<^verbatim>\<open>Line7\<close>
  and no credential configured, \<^verbatim>\<open>insights\<close> is the first three lines followed by
  the last three, cut to five entries: \<^verbatim>\<open>Line1, Line2, Line3, Line5, Line6\<close>;
  \<^verbatim>\<open>risks\<close> is the one fixed caution entry and \<^verbatim>\<open>model_used\<close> is \<^verbatim>\<open>heuristic\<close>.
\<close>

theorem seven_lines_insights_cut_to_five:
  assumes "strip (getenv rt (ascii ''OPENAI_API_KEY'') []) = []"
  shows "\<exists>r. summarize rt (Some seven_lines) None summary_type = Inr r
     \<and> insights r = map ascii [''Line1'', ''Line2'', ''Line3'', ''Line5'', ''Line6'']
     \<and> risks r = [ascii ''Not verified. Heuristic mode.'']
     \<and> model_used r = ascii ''heuristic''"
  using assms
  by (simp add: summarize_text_only seven_lines_nonempty produce_summary_no_key
      insights_seven_lines risks_heuristic model_used_heuristic)

theorem seven_lines_insights_cut_to_five_witness:
  "strip (getenv offline_runtime (ascii ''OPENAI_API_KEY'') []) = [] \<and>
   (\<exists>r. summarize offline_runtime (Some seven_lines) None (ascii ''executive'') = Inr r
     \<and> insights r = map ascii [''Line1'', ''Line2'', ''Line3'', ''Line5'', ''Line6'']
     \<and> risks r = [ascii ''Not verified. Heuristic mode.'']
     \<and> model_used r = ascii ''heuristic'')"
  using offline_no_key seven_lines_insights_cut_to_five[OF offline_no_key, of "ascii ''executive''"]
  by blast

text \<open>
  C2 as stated fails: on the seven-line text with no credential the insights are not
  the six lines \<^verbatim>\<open>Line1, Line2, Line3, Line5, Line6, Line7\<close>.
\<close>

theorem seven_lines_six_insights_counterexample:
  "map_sum id insights
     (summarize offline_runtime (Some seven_lines) None (ascii ''executive''))
   = Inr (map ascii [''Line1'', ''Line2'', ''Line3'', ''Line5'', ''Line6''])
   \<and> map_sum id insights
     (summarize offline_runtime (Some seven_lines) None (ascii ''executive''))
   \<noteq> Inr (map ascii [''Line1'', ''Line2'', ''Line3'', ''Line5'', ''Line6'', ''Line7''])"
  by (simp add: summarize_text_only seven_lines_nonempty produce_summary_no_key
      offline_no_key insights_seven_lines)

text \<open>
  C3.  For every request that passes input validation, in particular for every
  non-empty text in the text field, when the credential variable is absent or empty
  after stripping, \<^verbatim>\<open>summarize\<close> returns a summary with \<^verbatim>\<open>model_used\<close> equal to
  \<^verbatim>\<open>heuristic\<close> and with at least one and at most five insights.
\<close>

theorem no_credential_heuristic_insights_bounds:
  assumes "case file of
             None \<Rightarrow> text = Some eff \<and> eff \<noteq> []
           | Some f \<Rightarrow> endswith (str_lower rt (filename f)) (ascii ''.txt'')
                       \<and> eff = decode_utf8_ignore (content f)"
    and "strip (getenv rt (ascii ''OPENAI_API_KEY'') []) = []"
  shows "\<exists>r. summarize rt text file summary_type = Inr r
      \<and> model_used r = ascii ''heuristic''
      \<and> insights r \<noteq> [] \<and> length (insights r) \<le> 5"
  using assms(2)
  by (simp add: summarize_validated[OF assms(1)] produce_summary_no_key model_used_heuristic
      insights_heuristic_nonempty insights_heuristic_le5)

theorem no_credential_heuristic_insights_bounds_witness:
  "ascii ''hello'' \<noteq> [] \<and>
   strip (getenv offline_runtime (ascii ''OPENAI_API_KEY'') []) = [] \<and>
   (\<exists>r. summarize offline_runtime (Some (ascii ''hello'')) None (ascii ''short'') = Inr r
      \<and> model_used r = ascii ''heuristic''
      \<and> insights r \<noteq> [] \<and> length (insights r) \<le> 5)"
proof -
  have n: "ascii ''hello'' \<noteq> []" by (simp add: ascii_def)
  have "\<exists>r. summarize offline_runtime (Some (ascii ''hello'')) None (ascii ''short'') = Inr r
      \<and> model_used r = ascii ''heuristic''
      \<and> insights r \<noteq> [] \<and> length (insights r) \<le> 5"
    by (rule no_credential_heuristic_insights_bounds[where eff = "ascii ''hello''"])
       (simp_all add: n offline_no_key)
  with n offline_no_key show ?thesis by blast
qed

text \<open>
  C4 (as the code behaves).  For every accepted upload (lower-cased file name ending
  in \<^verbatim>\<open>.txt\<close>) reading the file never fails, whatever the bytes: they are decoded as
  UTF-8 with every undecodable byte sequence dropped, not replaced.  The result holds
  only scalar values, its encoding is a subsequence of the uploaded bytes, and bytes
  that are the encoding of a string decode to that string.
\<close>

theorem read_file_bytes_drops_undecodable:
  assumes "endswith (str_lower rt (filename upload)) (ascii ''.txt'')"
  shows "read_file_bytes rt upload = Inr (decode_utf8_ignore (content upload))
     \<and> list_all scalar (decode_utf8_ignore (content upload))
     \<and> subseq (utf8_encode (decode_utf8_ignore (content upload))) (map unat (content upload))
     \<and> (\<forall>cs. list_all scalar cs \<and> map unat (content upload) = utf8_encode cs
            \<longrightarrow> decode_utf8_ignore (content upload) = cs)"
  using assms
  by (simp add: read_file_bytes_def decode_utf8_ignore_def utf8_decode_ignore_scalar
      utf8_decode_ignore_subseq utf8_decode_encode)

theorem read_file_bytes_drops_undecodable_witness:
  "endswith (str_lower offline_runtime (filename broken_upload)) (ascii ''.txt'')
   \<and> read_file_bytes offline_runtime broken_upload = Inr [0x41, 0x42]
   \<and> subseq (utf8_encode [0x41, 0x42]) (map unat (content broken_upload))"
proof -
  have h: "endswith (str_lower offline_runtime (filename broken_upload)) (ascii ''.txt'')"
    by (simp add: broken_upload_def rt_eval str_eval)
  have d: "decode_utf8_ignore (content broken_upload) = [0x41, 0x42]"
    by (simp add: broken_upload_def utf8_eval)
  show ?thesis
    using h read_file_bytes_drops_undecodable[OF h] unfolding d by blast
qed

text \<open>
  C4 as stated fails: for the accepted upload with bytes \<^verbatim>\<open>41 FF 42\<close> the undecodable
  byte \<^verbatim>\<open>FF\<close> is not replaced.  The handler reads \<^verbatim>\<open>AB\<close>; decoding with replacement
  gives \<^verbatim>\<open>A\<close>, U+FFFD, \<^verbatim>\<open>B\<close>.
\<close>

theorem read_file_bytes_replace_counterexample:
  "read_file_bytes offline_runtime broken_upload = Inr [0x41, 0x42]
   \<and> decode_utf8_replace (content broken_upload) = [0x41, 0xFFFD, 0x42]
   \<and> read_file_bytes offline_runtime broken_upload
       \<noteq> Inr (decode_utf8_replace (content broken_upload))"
  by (simp add: read_file_bytes_def broken_upload_def rt_eval str_eval utf8_eval)

text \<open>
  C5.  A request with neither a text field nor a file is rejected with status 400 and
  the detail \<^verbatim>\<open>Provide 'text' or a .txt 'file'.\<close>; no summary is produced.
\<close>

theorem summarize_no_input_rejected:
  "summarize rt None None summary_type
     = Inl (HTTPException 400 (ascii ''Provide 'text' or a .txt 'file'.''))"
  by (simp add: summarize_def)

theorem summarize_no_input_rejected_witness:
  "summarize offline_runtime None None (ascii ''short'')
     = Inl (HTTPException 400 (ascii ''Provide 'text' or a .txt 'file'.''))"
  by (rule summarize_no_input_rejected)

text \<open>
  C6.  A request with a file whose lower-cased name does not end in \<^verbatim>\<open>.txt\<close> is
  rejected with status 400 and a detail saying that only \<^verbatim>\<open>.txt\<close> is accepted,
  whatever the text field holds.
\<close>

theorem summarize_non_txt_rejected:
  assumes "\<not> endswith (str_lower rt (filename f)) (ascii ''.txt'')"
  shows "summarize rt text (Some f) summary_type
           = Inl (HTTPException 400
                   (ascii ''Only .txt accepted in this minimal build. ''
                    @ ascii ''Use 'text' field for pasted content.''))"
  using assms by (simp add: summarize_file read_file_bytes_def)

theorem summarize_non_txt_rejected_witness:
  "\<not> endswith (str_lower offline_runtime (filename pdf_upload)) (ascii ''.txt'')
   \<and> summarize offline_runtime (Some (ascii ''pasted'')) (Some pdf_upload) (ascii ''executive'')
       = Inl (HTTPException 400
               (ascii ''Only .txt accepted in this minimal build. ''
                @ ascii ''Use 'text' field for pasted content.''))"
proof -
  have h: "\<not> endswith (str_lower offline_runtime (filename pdf_upload)) (ascii ''.txt'')"
    by (simp add: pdf_upload_def rt_eval str_eval)
  show ?thesis using h summarize_non_txt_rejected[OF h] by blast
qed

text \<open>
  C7.  When a text field and an accepted file are both present, the summary is
  produced from the decoded content of the file and the text field is ignored: the
  response is the one of the same request without the text field.
\<close>

theorem summarize_file_wins:
  assumes "endswith (str_lower rt (filename f)) (ascii ''.txt'')"
  shows "summarize rt (Some t) (Some f) summary_type
           = Inr (produce_summary rt (decode_utf8_ignore (content f)) summary_type)
     \<and> summarize rt (Some t) (Some f) summary_type = summarize rt None (Some f) summary_type"
  using assms by (simp add: summarize_file read_file_bytes_def)

theorem summarize_file_wins_witness:
  "endswith (str_lower offline_runtime (filename txt_upload)) (ascii ''.txt'')
   \<and> summarize offline_runtime (Some (ascii ''pasted'')) (Some txt_upload) (ascii ''executive'')
      = Inr (produce_summary offline_runtime (decode_utf8_ignore (content txt_upload))
               (ascii ''executive''))
   \<and> summarize offline_runtime (Some (ascii ''pasted'')) (Some txt_upload) (ascii ''executive'')
      = summarize offline_runtime None (Some txt_upload) (ascii ''executive'')"
proof -
  have h: "endswith (str_lower offline_runtime (filename txt_upload)) (ascii ''.txt'')"
    by (simp add: txt_upload_def rt_eval str_eval)
  show ?thesis using h summarize_file_wins[OF h] by blast
qed

text \<open>
  C8.  When no line of the text is non-empty after stripping (for instance when the
  text is all whitespace), the heuristic insights are exactly the one placeholder
  entry, \<^verbatim>\<open>No salient lines detected.\<close>
\<close>

theorem heuristic_placeholder_when_no_lines:
  assumes "\<forall>ln \<in> set (splitlines text). strip ln = []"
  shows "insights (heuristic_summarize text) = [ascii ''No salient lines detected.'']"
  using assms by (rule insights_no_lines)

theorem heuristic_placeholder_when_no_lines_witness:
  "list_all (\<lambda>ln. strip ln = []) (splitlines [0x20, 0x20, 0x0A, 0x09, 0x0D, 0x0A, 0x3000])
   \<and> insights (heuristic_summarize [0x20, 0x20, 0x0A, 0x09, 0x0D, 0x0A, 0x3000])
       = [ascii ''No salient lines detected.'']"
proof -
  have h: "\<forall>ln \<in> set (splitlines [0x20, 0x20, 0x0A, 0x09, 0x0D, 0x0A, 0x3000]). strip ln = []"
    by (simp add: str_eval)
  show ?thesis
    using h heuristic_placeholder_when_no_lines[OF h] by (simp only: list_all_iff simp_thms)
qed

text \<open>
  C9.  A request whose text field is the empty string and which has no file is
  rejected exactly like a request without a text field: status 400 with the same
  detail.
\<close>

theorem summarize_empty_text_rejected:
  "summarize rt (Some []) None summary_type
     = Inl (HTTPException 400 (ascii ''Provide 'text' or a .txt 'file'.''))
   \<and> summarize rt (Some []) None summary_type = summarize rt None None summary_type"
  by (simp add: summarize_def)

theorem summarize_empty_text_rejected_witness:
  "summarize timeout_runtime (Some []) None (ascii ''detailed'')
     = Inl (HTTPException 400 (ascii ''Provide 'text' or a .txt 'file'.''))
   \<and> summarize timeout_runtime (Some []) None (ascii ''detailed'')
       = summarize timeout_runtime None None (ascii ''detailed'')"
  by (rule summarize_empty_text_rejected)

text \<open>
  C10.  When no credential is configured, the outcome of \<^verbatim>\<open>summarize\<close> does not
  depend on \<^verbatim>\<open>summary_type\<close>: two requests with the same text and file and any two
  summary types, inside or outside the three documented values, get the same
  response; so do a text request and a file request with the same effective text.
  No value of \<^verbatim>\<open>summary_type\<close> is rejected: a request with a non-empty text and no
  file succeeds for every summary type.
\<close>

theorem summarize_ignores_summary_type:
  assumes "strip (getenv rt (ascii ''OPENAI_API_KEY'') []) = []"
  shows "summarize rt text file st1 = summarize rt text file st2
     \<and> produce_summary rt t st1 = produce_summary rt t st2
     \<and> (t \<noteq> [] \<longrightarrow> summarize rt (Some t) None st1 = Inr (heuristic_summarize t))
     \<and> (t \<noteq> [] \<and> endswith (str_lower rt (filename f)) (ascii ''.txt'')
          \<and> decode_utf8_ignore (content f) = t
        \<longrightarrow> summarize rt text (Some f) st1 = summarize rt (Some t) None st2)"
proof -
  have k: "\<And>x st. produce_summary rt x st = heuristic_summarize x"
    using assms by (simp add: produce_summary_no_key)
  have a: "summarize rt text file st1 = summarize rt text file st2"
    by (simp only: summarize_def k)
  have b: "t \<noteq> [] \<longrightarrow> summarize rt (Some t) None st1 = Inr (heuristic_summarize t)"
    by (simp add: summarize_text_only k)
  have c: "t \<noteq> [] \<and> endswith (str_lower rt (filename f)) (ascii ''.txt'')
             \<and> decode_utf8_ignore (content f) = t
           \<longrightarrow> summarize rt text (Some f) st1 = summarize rt (Some t) None st2"
    by (simp add: summarize_text_only summarize_file read_file_bytes_def k)
  from a b c k show ?thesis by simp
qed

theorem summarize_ignores_summary_type_witness:
  "strip (getenv offline_runtime (ascii ''OPENAI_API_KEY'') []) = [] \<and>
   summarize offline_runtime (Some (ascii ''hello'')) None (ascii ''short'')
     = summarize offline_runtime (Some (ascii ''hello'')) None (ascii ''no such type'')
   \<and> summarize offline_runtime (Some (ascii ''hello'')) None (ascii ''no such type'')
     = Inr (heuristic_summarize (ascii ''hello''))"
proof -
  have n: "ascii ''hello'' \<noteq> []" by (simp add: ascii_def)
  show ?thesis
    using n offline_no_key
      summarize_ignores_summary_type[OF offline_no_key,
        of "Some (ascii ''hello'')" None "ascii ''short''" "ascii ''no such type''"
           "ascii ''hello''"]
      summarize_ignores_summary_type[OF offline_no_key,
        of "Some (ascii ''hello'')" None "ascii ''no such type''" "ascii ''short''"
           "ascii ''hello''"]
    by simp
qed

end
